theory Spec2Isabelle
  imports Complex_Main
begin

section \<open>Values exchanged with the outside\<close>

text \<open>
  A decoded JSON document is what Go's \<^verbatim>\<open>encoding/json\<close> stores in an
  \<^verbatim>\<open>interface{}\<close>: nil for \<^verbatim>\<open>null\<close>, a bool, a float64, a string, a slice or a
  map with string keys. \<open>JNull\<close> is the nil interface, which is also the zero value of
  both fields of \<^verbatim>\<open>LNResponse\<close>.
\<close>

datatype json =
    JNull
  | JBool bool
  | JNumber rat
  | JString string
  | JArray "json list"
  | JObject "(string \<times> json) list"

text \<open>\<^verbatim>\<open>type LNResponse struct { Lnurlp interface{}; Keysend interface{} }\<close>\<close>

record LNResponse =
  Lnurlp :: json
  Keysend :: json

text \<open>The part of \<^verbatim>\<open>http.Response\<close> the program reads: the status code and the body.\<close>

record Response =
  StatusCode :: int
  Body :: string

text \<open>
  What \<^verbatim>\<open>http.Get\<close> returns is a pair \<^verbatim>\<open>(resp, err)\<close>. A transport failure gives
  \<^verbatim>\<open>(nil, err)\<close>; a completed exchange gives \<^verbatim>\<open>(resp, nil)\<close>; and when the redirect
  policy of the default client gives up, the last response comes back together with
  an error. The pair \<^verbatim>\<open>(nil, nil)\<close> does not occur.
\<close>

datatype http_result =
    Get_Error
  | Get_Redirect_Error Response
  | Get_Ok Response

fun resp_of :: "http_result \<Rightarrow> Response option" where
  "resp_of Get_Error = None"
| "resp_of (Get_Redirect_Error r) = Some r"
| "resp_of (Get_Ok r) = Some r"

datatype error = Invalid_address | No_details | Invalid_JSON

text \<open>
  The network is a function from the requested URL to the outcome of the GET; the JSON
  decoder of the standard library is a function from a body to a document, \<open>None\<close>
  when decoding fails. The requests a handler makes are recorded, in order, in a trace.
\<close>

type_synonym network = "string \<Rightarrow> http_result"
type_synonym decoder = "string \<Rightarrow> json option"
type_synonym trace = "string list"

definition http_Get :: "network \<Rightarrow> string \<Rightarrow> trace \<Rightarrow> http_result \<times> trace" where
  "http_Get net url tr = (net url, tr @ [url])"

section \<open>GetJSON\<close>

definition GetJSON ::
  "decoder \<Rightarrow> network \<Rightarrow> string \<Rightarrow> trace \<Rightarrow> (json \<times> Response option \<times> error option) \<times> trace" where
  "GetJSON decode net url tr =
     (case http_Get net url tr of (res, tr') \<Rightarrow>
        (case res of
           Get_Error \<Rightarrow> ((JNull, None, Some No_details), tr')
         | Get_Redirect_Error response \<Rightarrow> ((JNull, Some response, Some No_details), tr')
         | Get_Ok response \<Rightarrow>
             if StatusCode response > 300
             then ((JNull, Some response, Some No_details), tr')
             else (case decode (Body response) of
                     None \<Rightarrow> ((JNull, Some response, Some Invalid_JSON), tr')
                   | Some j \<Rightarrow> ((j, Some response, None), tr'))))"

section \<open>ToUrl\<close>

text \<open>
  \<^verbatim>\<open>strings.Split(s, "@")\<close> with a one-byte separator: the text before the first
  separator, then the split of what follows it; a string without the separator is
  returned whole, so the result is never empty.
\<close>

function Split :: "string \<Rightarrow> char \<Rightarrow> string list" where
  "Split s sep =
     (case dropWhile (\<lambda>c. c \<noteq> sep) s of
        [] \<Rightarrow> [s]
      | _ # rest \<Rightarrow> takeWhile (\<lambda>c. c \<noteq> sep) s # Split rest sep)"
  by pat_completeness auto
termination
proof (relation "measure (\<lambda>(s, sep). length s)")
  show "wf (measure (\<lambda>(s, sep). length s))" by simp
next
  fix s :: string and sep x rest
  assume "dropWhile (\<lambda>c. c \<noteq> sep) s = x # rest"
  then have "length rest < length (dropWhile (\<lambda>c. c \<noteq> sep) s)" by simp
  also have "\<dots> \<le> length s" by (rule length_dropWhile_le)
  finally show "((rest, sep), (s, sep)) \<in> measure (\<lambda>(s, sep). length s)" by simp
qed

declare Split.simps [simp del]

definition keysend_url :: "string \<Rightarrow> string \<Rightarrow> string" where
  "keysend_url domain local = ''https://'' @ domain @ ''/.well-known/keysend/'' @ local"

definition lnurlp_url :: "string \<Rightarrow> string \<Rightarrow> string" where
  "lnurlp_url domain local = ''https://'' @ domain @ ''/.well-known/lnurlp/'' @ local"

definition ToUrl :: "string \<Rightarrow> error + string \<times> string" where
  "ToUrl identifier =
     (case Split identifier CHR ''@'' of
        [p0, p1] \<Rightarrow> Inr (lnurlp_url p1 p0, keysend_url p1 p0)
      | _ \<Rightarrow> Inl Invalid_address)"

section \<open>The handler of \<^verbatim>\<open>GET /lightning-address-details\<close>\<close>

text \<open>
  What the handler sends: the status code, the response body before marshalling, and
  whether it is written by \<^verbatim>\<open>c.JSONPretty\<close> (indented) or by \<^verbatim>\<open>c.JSON\<close>.
  Logging has no influence on the reply and is left out.
\<close>

record reply =
  status :: int
  body :: LNResponse
  pretty :: bool

text \<open>The handler of \<^verbatim>\<open>main.go\<close>, built on \<open>ToUrl\<close> and \<open>GetJSON\<close>.\<close>

definition handler :: "decoder \<Rightarrow> network \<Rightarrow> string \<Rightarrow> reply \<times> trace" where
  "handler decode net lnaddr =
     (let responseBody = \<lparr>Lnurlp = JNull, Keysend = JNull\<rparr> in
      case ToUrl lnaddr of
        Inl err \<Rightarrow> (\<lparr>status = 400, body = responseBody, pretty = False\<rparr>, [])
      | Inr (lnurlpUrl, keysendUrl) \<Rightarrow>
          (case GetJSON decode net lnurlpUrl [] of ((lnurlp, lnurlpResponse, err), tr) \<Rightarrow>
             let responseBody =
                   (case err of Some _ \<Rightarrow> responseBody
                    | None \<Rightarrow> responseBody\<lparr>Lnurlp := lnurlp\<rparr>) in
             (case GetJSON decode net keysendUrl tr of ((keysend, keysendResponse, err), tr) \<Rightarrow>
                let responseBody =
                      (case err of Some _ \<Rightarrow> responseBody
                       | None \<Rightarrow> responseBody\<lparr>Keysend := keysend\<rparr>) in
                if lnurlpResponse = None \<and> keysendResponse = None
                then (\<lparr>status = 400, body = responseBody, pretty = False\<rparr>, tr)
                else
                  (case (lnurlpResponse, keysendResponse) of
                     (Some lr, Some kr) \<Rightarrow>
                       if StatusCode lr > 300 \<and> StatusCode kr > 300
                       then (\<lparr>status = StatusCode lr, body = responseBody, pretty = True\<rparr>, tr)
                       else (\<lparr>status = 200, body = responseBody, pretty = True\<rparr>, tr)
                   | _ \<Rightarrow> (\<lparr>status = 200, body = responseBody, pretty = True\<rparr>, tr)))))"

text \<open>
  The handler of the second source file does everything inline: it splits the
  identifier itself, and requests keysend first, lnurlp second.
\<close>

definition handler_inline :: "decoder \<Rightarrow> network \<Rightarrow> string \<Rightarrow> reply \<times> trace" where
  "handler_inline decode net lnaddr =
     (let responseBody = \<lparr>Lnurlp = JNull, Keysend = JNull\<rparr> in
      case Split lnaddr CHR ''@'' of
        [p0, p1] \<Rightarrow>
          (let keysendUrl = keysend_url p1 p0;
               lnurlpUrl = lnurlp_url p1 p0 in
           case http_Get net keysendUrl [] of (keysendGet, tr) \<Rightarrow>
             let keysendResponse = resp_of keysendGet;
                 responseBody =
                   (case keysendGet of
                      Get_Ok r \<Rightarrow>
                        if StatusCode r > 300 then responseBody
                        else (case decode (Body r) of
                                None \<Rightarrow> responseBody
                              | Some keysend \<Rightarrow> responseBody\<lparr>Keysend := keysend\<rparr>)
                    | _ \<Rightarrow> responseBody) in
             (case http_Get net lnurlpUrl tr of (lnurlpGet, tr) \<Rightarrow>
                let lnurlpResponse = resp_of lnurlpGet;
                    responseBody =
                      (case lnurlpGet of
                         Get_Ok r \<Rightarrow>
                           if StatusCode r > 300 then responseBody
                           else (case decode (Body r) of
                                   None \<Rightarrow> responseBody
                                 | Some lnurlp \<Rightarrow> responseBody\<lparr>Lnurlp := lnurlp\<rparr>)
                       | _ \<Rightarrow> responseBody) in
                if lnurlpResponse = None \<and> keysendResponse = None
                then (\<lparr>status = 400, body = responseBody, pretty = False\<rparr>, tr)
                else
                  (case (lnurlpResponse, keysendResponse) of
                     (Some lr, Some kr) \<Rightarrow>
                       if StatusCode lr > 300 \<and> StatusCode kr > 300
                       then (\<lparr>status = StatusCode lr, body = responseBody, pretty = True\<rparr>, tr)
                       else (\<lparr>status = 200, body = responseBody, pretty = True\<rparr>, tr)
                   | _ \<Rightarrow> (\<lparr>status = 200, body = responseBody, pretty = True\<rparr>, tr))))
      | _ \<Rightarrow> (\<lparr>status = 400, body = responseBody, pretty = False\<rparr>, []))"

section \<open>Facts about splitting\<close>

lemma Split_no_sep:
  assumes "sep \<notin> set s"
  shows "Split s sep = [s]"
proof -
  from assms have d: "dropWhile (\<lambda>c. c \<noteq> sep) s = []" by auto
  show ?thesis by (subst Split.simps) (simp only: d list.case)
qed

lemma Split_append:
  assumes "sep \<notin> set a"
  shows "Split (a @ sep # b) sep = a # Split b sep"
proof -
  from assms have d: "dropWhile (\<lambda>c. c \<noteq> sep) (a @ sep # b) = sep # b"
    by (induction a) auto
  from assms have t: "takeWhile (\<lambda>c. c \<noteq> sep) (a @ sep # b) = a"
    by (induction a) auto
  show ?thesis
    by (subst Split.simps) (simp add: d t)
qed

lemma length_Split: "length (Split s sep) = Suc (count_list s sep)"
proof (induction s sep rule: Split.induct)
  case (1 s sep)
  show ?case
  proof (cases "dropWhile (\<lambda>c. c \<noteq> sep) s")
    case Nil
    then have "sep \<notin> set s" by auto
    then show ?thesis by (simp add: Split_no_sep)
  next
    case (Cons x rest)
    then have x: "x = sep" using hd_dropWhile [of "\<lambda>c. c \<noteq> sep" s] by auto
    have s: "s = takeWhile (\<lambda>c. c \<noteq> sep) s @ sep # rest"
      using takeWhile_dropWhile_id [of "\<lambda>c. c \<noteq> sep" s] Cons x by simp
    have n: "count_list (takeWhile (\<lambda>c. c \<noteq> sep) s) sep = 0"
      by (simp add: count_list_0_iff) (auto dest: set_takeWhileD)
    have "count_list s sep = Suc (count_list rest sep)"
      by (subst s) (simp add: n)
    moreover have "length (Split s sep) = Suc (length (Split rest sep))"
      by (subst Split.simps) (simp add: Cons)
    ultimately show ?thesis using "1.IH" [OF Cons] by simp
  qed
qed

lemma Split_two_iff:
  "(\<exists>p0 p1. Split s sep = [p0, p1]) \<longleftrightarrow> count_list s sep = 1"
proof -
  have "(\<exists>p0 p1. Split s sep = [p0, p1]) \<longleftrightarrow> length (Split s sep) = 2"
    by (auto simp: length_Suc_conv numeral_2_eq_2)
  then show ?thesis by (simp add: length_Split)
qed

lemma ToUrl_Inr_iff:
  "ToUrl lnaddr = Inr (lu, ku) \<longleftrightarrow>
     (\<exists>p0 p1. Split lnaddr CHR ''@'' = [p0, p1] \<and> lu = lnurlp_url p1 p0 \<and> ku = keysend_url p1 p0)"
  by (auto simp: ToUrl_def split: list.splits)

lemma ToUrl_Inl_iff:
  "ToUrl lnaddr = Inl e \<longleftrightarrow> e = Invalid_address \<and> \<not> (\<exists>p0 p1. Split lnaddr CHR ''@'' = [p0, p1])"
  by (auto simp: ToUrl_def split: list.splits)

lemma ToUrl_user_domain:
  "ToUrl ''user@domain.com'' =
     Inr (''https://domain.com/.well-known/lnurlp/user'',
          ''https://domain.com/.well-known/keysend/user'')"
proof -
  have "Split ''user@domain.com'' CHR ''@'' = [''user'', ''domain.com'']"
    using Split_append [of "CHR ''@''" "''user''" "''domain.com''"]
      Split_no_sep [of "CHR ''@''" "''domain.com''"]
    by simp
  then show ?thesis by (simp add: ToUrl_def lnurlp_url_def keysend_url_def)
qed

lemma handler_inline_reply:
  "fst (handler_inline decode net lnaddr) = fst (handler decode net lnaddr)"
  by (auto simp: handler_def handler_inline_def ToUrl_def GetJSON_def http_Get_def Let_def
      split: list.splits http_result.splits option.splits)

lemma handler_traces:
  "snd (handler_inline decode net lnaddr) = rev (snd (handler decode net lnaddr))"
  by (auto simp: handler_def handler_inline_def ToUrl_def GetJSON_def http_Get_def Let_def
      split: list.splits http_result.splits option.splits)

section \<open>Facts about GetJSON and the handlers\<close>

lemma GetJSON_trace: "snd (GetJSON decode net url tr) = tr @ [url]"
  by (simp add: GetJSON_def http_Get_def split: http_result.split option.split)

lemma GetJSON_fst_trace: "fst (GetJSON decode net url tr) = fst (GetJSON decode net url [])"
  by (simp add: GetJSON_def http_Get_def split: http_result.split option.split)

lemma GetJSON_eq:
  "fst (GetJSON decode net url []) = x \<Longrightarrow> GetJSON decode net url tr = (x, tr @ [url])"
  using GetJSON_trace [of decode net url tr] GetJSON_fst_trace [of decode net url tr]
  by (cases "GetJSON decode net url tr") simp

lemma GetJSON_results:
  "net url = Get_Error \<Longrightarrow> fst (GetJSON decode net url tr) = (JNull, None, Some No_details)"
  "net url = Get_Redirect_Error r \<Longrightarrow>
     fst (GetJSON decode net url tr) = (JNull, Some r, Some No_details)"
  "net url = Get_Ok r \<Longrightarrow> StatusCode r > 300 \<Longrightarrow>
     fst (GetJSON decode net url tr) = (JNull, Some r, Some No_details)"
  "net url = Get_Ok r \<Longrightarrow> \<not> StatusCode r > 300 \<Longrightarrow> decode (Body r) = None \<Longrightarrow>
     fst (GetJSON decode net url tr) = (JNull, Some r, Some Invalid_JSON)"
  "net url = Get_Ok r \<Longrightarrow> \<not> StatusCode r > 300 \<Longrightarrow> decode (Body r) = Some j \<Longrightarrow>
     fst (GetJSON decode net url tr) = (j, Some r, None)"
  by (simp_all add: GetJSON_def http_Get_def)

lemma GetJSON_response: "fst (snd (fst (GetJSON decode net url tr))) = resp_of (net url)"
  by (cases "net url") (simp_all add: GetJSON_def http_Get_def split: option.split)

lemma GetJSON_error_value:
  "snd (snd (fst (GetJSON decode net url tr))) \<noteq> None \<Longrightarrow>
     fst (fst (GetJSON decode net url tr)) = JNull"
  by (cases "net url") (auto simp: GetJSON_def http_Get_def split: option.splits if_splits)

lemma GetJSON_same_outcome:
  "net1 url = net2 url \<Longrightarrow> fst (GetJSON decode net1 url tr) = fst (GetJSON decode net2 url tr)"
  by (simp add: GetJSON_def http_Get_def)

lemma handler_parsed:
  assumes "ToUrl lnaddr = Inr (lu, ku)"
    and "fst (GetJSON decode net lu []) = (lnurlp, lnurlpResponse, lnurlpErr)"
    and "fst (GetJSON decode net ku []) = (keysend, keysendResponse, keysendErr)"
  shows "handler decode net lnaddr =
     (let responseBody = \<lparr>Lnurlp = (if lnurlpErr = None then lnurlp else JNull),
                           Keysend = (if keysendErr = None then keysend else JNull)\<rparr> in
      if lnurlpResponse = None \<and> keysendResponse = None
      then (\<lparr>status = 400, body = responseBody, pretty = False\<rparr>, [lu, ku])
      else
        (case (lnurlpResponse, keysendResponse) of
           (Some lr, Some kr) \<Rightarrow>
             if StatusCode lr > 300 \<and> StatusCode kr > 300
             then (\<lparr>status = StatusCode lr, body = responseBody, pretty = True\<rparr>, [lu, ku])
             else (\<lparr>status = 200, body = responseBody, pretty = True\<rparr>, [lu, ku])
         | _ \<Rightarrow> (\<lparr>status = 200, body = responseBody, pretty = True\<rparr>, [lu, ku])))"
proof -
  have g1: "GetJSON decode net lu [] = ((lnurlp, lnurlpResponse, lnurlpErr), [lu])"
    using GetJSON_eq [OF assms(2), of "[]"] by simp
  have g2: "GetJSON decode net ku [lu] = ((keysend, keysendResponse, keysendErr), [lu, ku])"
    using GetJSON_eq [OF assms(3), of "[lu]"] by simp
  show ?thesis
    by (cases lnurlpErr; cases keysendErr) (simp_all add: handler_def assms(1) g1 g2)
qed

lemma handler_trace:
  assumes "ToUrl lnaddr = Inr (lu, ku)"
  shows "snd (handler decode net lnaddr) = [lu, ku]"
proof -
  obtain lj lr le where l: "fst (GetJSON decode net lu []) = (lj, lr, le)"
    using prod_cases3 by blast
  obtain kj kr ke where k: "fst (GetJSON decode net ku []) = (kj, kr, ke)"
    using prod_cases3 by blast
  show ?thesis
    by (cases lr; cases kr) (simp_all add: handler_parsed [OF assms l k] Let_def)
qed

lemma handler_body:
  assumes "ToUrl lnaddr = Inr (lu, ku)"
  shows "body (fst (handler decode net lnaddr)) =
           \<lparr>Lnurlp = fst (fst (GetJSON decode net lu [])),
            Keysend = fst (fst (GetJSON decode net ku []))\<rparr>"
proof -
  obtain lj lr le where l: "fst (GetJSON decode net lu []) = (lj, lr, le)"
    by (cases "fst (GetJSON decode net lu [])") auto
  obtain kj kr ke where k: "fst (GetJSON decode net ku []) = (kj, kr, ke)"
    by (cases "fst (GetJSON decode net ku [])") auto
  have lv: "le \<noteq> None \<Longrightarrow> lj = JNull"
    using GetJSON_error_value [of decode net lu "[]"] l by simp
  have kv: "ke \<noteq> None \<Longrightarrow> kj = JNull"
    using GetJSON_error_value [of decode net ku "[]"] k by simp
  have "body (fst (handler decode net lnaddr)) =
          \<lparr>Lnurlp = (if le = None then lj else JNull), Keysend = (if ke = None then kj else JNull)\<rparr>"
    by (cases lr; cases kr) (simp_all add: handler_parsed [OF assms l k] Let_def)
  then show ?thesis using lv kv by (simp add: l k)
qed

lemma handler_no_parse:
  assumes "count_list lnaddr CHR ''@'' \<noteq> 1"
  shows "handler decode net lnaddr =
           (\<lparr>status = 400, body = \<lparr>Lnurlp = JNull, Keysend = JNull\<rparr>, pretty = False\<rparr>, [])"
proof -
  from assms have "\<not> (\<exists>p0 p1. Split lnaddr CHR ''@'' = [p0, p1])"
    by (simp add: Split_two_iff)
  then have "ToUrl lnaddr = Inl Invalid_address" by (simp add: ToUrl_Inl_iff)
  then show ?thesis by (simp add: handler_def)
qed

lemma handler_inline_no_parse:
  assumes "count_list lnaddr CHR ''@'' \<noteq> 1"
  shows "handler_inline decode net lnaddr =
           (\<lparr>status = 400, body = \<lparr>Lnurlp = JNull, Keysend = JNull\<rparr>, pretty = False\<rparr>, [])"
proof -
  have "handler_inline decode net lnaddr = (fst (handler_inline decode net lnaddr), snd (handler_inline decode net lnaddr))"
    by simp
  then show ?thesis
    by (simp add: handler_inline_reply handler_traces handler_no_parse [OF assms])
qed

section \<open>Claims\<close>

text \<open>
  The mirrored status, where the source's test finds it: when both fetches come back
  with a response whose status code is above 300, the reply carries the status code
  of the lnurlp response, never that of keysend, and a body with both fields empty.
\<close>

lemma both_above_300_status_of_lnurlp:
  assumes "ToUrl lnaddr = Inr (lu, ku)"
    and "resp_of (net lu) = Some lr" and "resp_of (net ku) = Some kr"
    and "StatusCode lr > 300" and "StatusCode kr > 300"
  shows "fst (handler decode net lnaddr) =
           \<lparr>status = StatusCode lr, body = \<lparr>Lnurlp = JNull, Keysend = JNull\<rparr>, pretty = True\<rparr>
       \<and> fst (handler_inline decode net lnaddr) =
           \<lparr>status = StatusCode lr, body = \<lparr>Lnurlp = JNull, Keysend = JNull\<rparr>, pretty = True\<rparr>"
proof -
  have l: "fst (GetJSON decode net lu []) = (JNull, Some lr, Some No_details)"
    using assms(2,4) by (cases "net lu") (simp_all add: GetJSON_results)
  have k: "fst (GetJSON decode net ku []) = (JNull, Some kr, Some No_details)"
    using assms(3,5) by (cases "net ku") (simp_all add: GetJSON_results)
  have "fst (handler decode net lnaddr) =
          \<lparr>status = StatusCode lr, body = \<lparr>Lnurlp = JNull, Keysend = JNull\<rparr>, pretty = True\<rparr>"
    using assms(4,5) by (simp add: handler_parsed [OF assms(1) l k])
  then show ?thesis by (simp add: handler_inline_reply)
qed

lemma both_above_300_example:
  "fst (handler (\<lambda>b. None)
         (\<lambda>u. if u = ''https://domain.com/.well-known/lnurlp/user''
               then Get_Ok \<lparr>StatusCode = 404, Body = ''Not Found''\<rparr>
               else Get_Ok \<lparr>StatusCode = 500, Body = ''Internal Server Error''\<rparr>)
         ''user@domain.com'') =
     \<lparr>status = 404, body = \<lparr>Lnurlp = JNull, Keysend = JNull\<rparr>, pretty = True\<rparr>"
  using both_above_300_status_of_lnurlp [OF ToUrl_user_domain,
      of "\<lambda>u. if u = ''https://domain.com/.well-known/lnurlp/user''
               then Get_Ok \<lparr>StatusCode = 404, Body = ''Not Found''\<rparr>
               else Get_Ok \<lparr>StatusCode = 500, Body = ''Internal Server Error''\<rparr>"
         "\<lparr>StatusCode = 404, Body = ''Not Found''\<rparr>"
         "\<lparr>StatusCode = 500, Body = ''Internal Server Error''\<rparr>" "\<lambda>b. None"]
  by simp

text \<open>
  C1. The claim fails at the boundary of the failure range. A response with status
  300 is a failure for the claim, but the handler tests
  \<^verbatim>\<open>lnurlpResponse.StatusCode > 300\<close>: with lnurlp answering 300 and keysend
  answering 404, both responses are received and both are failures, and yet the
  reply is 200 instead of the status of the lnurlp response.
\<close>

theorem both_failed_at_300_replies_200:
  "fst (handler (\<lambda>b. None)
         (\<lambda>u. if u = ''https://domain.com/.well-known/lnurlp/user''
               then Get_Ok \<lparr>StatusCode = 300, Body = ''Multiple Choices''\<rparr>
               else Get_Ok \<lparr>StatusCode = 404, Body = ''Not Found''\<rparr>)
         ''user@domain.com'') =
     \<lparr>status = 200, body = \<lparr>Lnurlp = JNull, Keysend = JNull\<rparr>, pretty = True\<rparr>
   \<and> fst (handler_inline (\<lambda>b. None)
         (\<lambda>u. if u = ''https://domain.com/.well-known/lnurlp/user''
               then Get_Ok \<lparr>StatusCode = 300, Body = ''Multiple Choices''\<rparr>
               else Get_Ok \<lparr>StatusCode = 404, Body = ''Not Found''\<rparr>)
         ''user@domain.com'') =
     \<lparr>status = 200, body = \<lparr>Lnurlp = JNull, Keysend = JNull\<rparr>, pretty = True\<rparr>"
  by (simp add: handler_inline_reply handler_def ToUrl_user_domain GetJSON_def http_Get_def)

text \<open>
  C2. The claim puts the boundary of success below 300. The source tests
  \<^verbatim>\<open>response.StatusCode > 300\<close>, so a response with status 300 passes the test: its
  body is decoded and returned without an error.
\<close>

theorem GetJSON_status_300_is_success:
  "GetJSON (\<lambda>b. if b = ''{}'' then Some (JObject []) else None)
     (\<lambda>u. Get_Ok \<lparr>StatusCode = 300, Body = ''{}''\<rparr>)
     ''https://domain.com/.well-known/lnurlp/user'' [] =
   ((JObject [], Some \<lparr>StatusCode = 300, Body = ''{}''\<rparr>, None),
    [''https://domain.com/.well-known/lnurlp/user''])"
  by (simp add: GetJSON_def http_Get_def)

text \<open>
  C3. The claim that an identifier with an empty local part or an empty domain is
  rejected does not hold: \<open>ToUrl\<close> counts the parts and never looks at their length.
\<close>

theorem ToUrl_empty_part_counterexample:
  "ToUrl ''@domain'' =
     Inr (''https://domain/.well-known/lnurlp/'', ''https://domain/.well-known/keysend/'')
   \<and> ToUrl ''user@'' =
     Inr (''https:///.well-known/lnurlp/user'', ''https:///.well-known/keysend/user'')"
proof -
  have "Split ''@domain'' CHR ''@'' = ['''', ''domain'']"
    using Split_append [of "CHR ''@''" "''''" "''domain''"]
      Split_no_sep [of "CHR ''@''" "''domain''"]
    by simp
  moreover have "Split ''user@'' CHR ''@'' = [''user'', '''']"
    using Split_append [of "CHR ''@''" "''user''" "''''"] Split_no_sep [of "CHR ''@''" "''''"]
    by simp
  ultimately show ?thesis by (simp add: ToUrl_def lnurlp_url_def keysend_url_def)
qed

text \<open>
  C3, as amended. \<open>ToUrl\<close> fails with the invalid-address error exactly when splitting
  the identifier on \<open>@\<close> does not give two parts, that is, exactly when the identifier
  does not contain one \<open>@\<close>; the parts may be empty.
\<close>

theorem ToUrl_fails_iff_not_two_parts:
  "(ToUrl lnaddr = Inl Invalid_address) = (length (Split lnaddr CHR ''@'') \<noteq> 2)
   \<and> (length (Split lnaddr CHR ''@'') \<noteq> 2) = (count_list lnaddr CHR ''@'' \<noteq> 1)"
proof -
  have "(\<exists>p0 p1. Split lnaddr CHR ''@'' = [p0, p1]) = (length (Split lnaddr CHR ''@'') = 2)"
    by (simp add: Split_two_iff length_Split)
  then show ?thesis by (simp add: ToUrl_Inl_iff length_Split)
qed

text \<open>
  C4. An identifier that does not contain exactly one \<open>@\<close> is answered with status 400
  and an empty result, and no request is made: the trace of fetches is empty.
\<close>

theorem not_one_at_is_bad_request:
  assumes "count_list lnaddr CHR ''@'' \<noteq> 1"
  shows "handler decode net lnaddr =
           (\<lparr>status = 400, body = \<lparr>Lnurlp = JNull, Keysend = JNull\<rparr>, pretty = False\<rparr>, [])
       \<and> handler_inline decode net lnaddr =
           (\<lparr>status = 400, body = \<lparr>Lnurlp = JNull, Keysend = JNull\<rparr>, pretty = False\<rparr>, [])"
  using assms by (simp add: handler_no_parse handler_inline_no_parse)

theorem not_one_at_is_bad_request_witness:
  "handler (\<lambda>b. Some JNull) (\<lambda>u. Get_Ok \<lparr>StatusCode = 200, Body = ''null''\<rparr>)
     ''userdomain.com'' =
     (\<lparr>status = 400, body = \<lparr>Lnurlp = JNull, Keysend = JNull\<rparr>, pretty = False\<rparr>, [])
   \<and> handler (\<lambda>b. Some JNull) (\<lambda>u. Get_Ok \<lparr>StatusCode = 200, Body = ''null''\<rparr>)
     ''user@domain@com'' =
     (\<lparr>status = 400, body = \<lparr>Lnurlp = JNull, Keysend = JNull\<rparr>, pretty = False\<rparr>, [])"
  using not_one_at_is_bad_request [of "''userdomain.com''" "\<lambda>b. Some JNull"
      "\<lambda>u. Get_Ok \<lparr>StatusCode = 200, Body = ''null''\<rparr>"]
    not_one_at_is_bad_request [of "''user@domain@com''" "\<lambda>b. Some JNull"
      "\<lambda>u. Get_Ok \<lparr>StatusCode = 200, Body = ''null''\<rparr>"]
  by simp

text \<open>
  C5. When neither fetch produced a response object, the reply is status 400 with both
  fields empty.
\<close>

theorem no_response_at_all_is_bad_request:
  assumes "ToUrl lnaddr = Inr (lu, ku)"
    and "resp_of (net lu) = None" and "resp_of (net ku) = None"
  shows "fst (handler decode net lnaddr) =
           \<lparr>status = 400, body = \<lparr>Lnurlp = JNull, Keysend = JNull\<rparr>, pretty = False\<rparr>
       \<and> fst (handler_inline decode net lnaddr) =
           \<lparr>status = 400, body = \<lparr>Lnurlp = JNull, Keysend = JNull\<rparr>, pretty = False\<rparr>"
proof -
  have l: "fst (GetJSON decode net lu []) = (JNull, None, Some No_details)"
    using assms(2) by (cases "net lu") (simp_all add: GetJSON_results)
  have k: "fst (GetJSON decode net ku []) = (JNull, None, Some No_details)"
    using assms(3) by (cases "net ku") (simp_all add: GetJSON_results)
  have "fst (handler decode net lnaddr) =
          \<lparr>status = 400, body = \<lparr>Lnurlp = JNull, Keysend = JNull\<rparr>, pretty = False\<rparr>"
    by (simp add: handler_parsed [OF assms(1) l k])
  then show ?thesis by (simp add: handler_inline_reply)
qed

theorem no_response_at_all_is_bad_request_witness:
  "fst (handler (\<lambda>b. Some JNull) (\<lambda>u. Get_Error) ''user@domain.com'') =
     \<lparr>status = 400, body = \<lparr>Lnurlp = JNull, Keysend = JNull\<rparr>, pretty = False\<rparr>"
  using no_response_at_all_is_bad_request [OF ToUrl_user_domain, of "\<lambda>u. Get_Error"
      "\<lambda>b. Some JNull"]
  by simp

text \<open>
  C6. A response that passes the status test but whose body does not decode leaves its
  field empty, and the reply is 200 whatever the other fetch gave: the response
  counts as received, so the 400 branch is not taken, and its status is not a
  failing one, so the status is not mirrored. With two such responses the reply is
  200 with both fields empty.
\<close>

theorem undecodable_body_counts_as_received:
  assumes "ToUrl lnaddr = Inr (lu, ku)"
  shows "(net lu = Get_Ok r \<and> StatusCode r \<le> 300 \<and> decode (Body r) = None \<longrightarrow>
            status (fst (handler decode net lnaddr)) = 200
          \<and> Lnurlp (body (fst (handler decode net lnaddr))) = JNull)
       \<and> (net ku = Get_Ok r' \<and> StatusCode r' \<le> 300 \<and> decode (Body r') = None \<longrightarrow>
            status (fst (handler decode net lnaddr)) = 200
          \<and> Keysend (body (fst (handler decode net lnaddr))) = JNull)
       \<and> (net lu = Get_Ok r \<and> StatusCode r \<le> 300 \<and> decode (Body r) = None
          \<and> net ku = Get_Ok r' \<and> StatusCode r' \<le> 300 \<and> decode (Body r') = None \<longrightarrow>
            fst (handler decode net lnaddr) =
              \<lparr>status = 200, body = \<lparr>Lnurlp = JNull, Keysend = JNull\<rparr>, pretty = True\<rparr>)"
proof -
  obtain lj lr le where l: "fst (GetJSON decode net lu []) = (lj, lr, le)"
    by (cases "fst (GetJSON decode net lu [])") auto
  obtain kj kr ke where k: "fst (GetJSON decode net ku []) = (kj, kr, ke)"
    by (cases "fst (GetJSON decode net ku [])") auto
  note h = handler_parsed [OF assms l k]
  have a: "status (fst (handler decode net lnaddr)) = 200
         \<and> Lnurlp (body (fst (handler decode net lnaddr))) = JNull"
    if "net lu = Get_Ok r" "StatusCode r \<le> 300" "decode (Body r) = None"
  proof -
    have "(lj, lr, le) = (JNull, Some r, Some Invalid_JSON)"
      using that GetJSON_results(4) [of net lu r decode "[]"] l by simp
    then show ?thesis using that(2) by (cases kr) (simp_all add: h Let_def)
  qed
  have b: "status (fst (handler decode net lnaddr)) = 200
         \<and> Keysend (body (fst (handler decode net lnaddr))) = JNull"
    if "net ku = Get_Ok r'" "StatusCode r' \<le> 300" "decode (Body r') = None"
  proof -
    have "(kj, kr, ke) = (JNull, Some r', Some Invalid_JSON)"
      using that GetJSON_results(4) [of net ku r' decode "[]"] k by simp
    then show ?thesis using that(2) by (cases lr) (simp_all add: h Let_def)
  qed
  have c: "fst (handler decode net lnaddr) =
             \<lparr>status = 200, body = \<lparr>Lnurlp = JNull, Keysend = JNull\<rparr>, pretty = True\<rparr>"
    if "net lu = Get_Ok r" "StatusCode r \<le> 300" "decode (Body r) = None"
      "net ku = Get_Ok r'" "StatusCode r' \<le> 300" "decode (Body r') = None"
  proof -
    have "(lj, lr, le) = (JNull, Some r, Some Invalid_JSON)"
      using that GetJSON_results(4) [of net lu r decode "[]"] l by simp
    moreover have "(kj, kr, ke) = (JNull, Some r', Some Invalid_JSON)"
      using that GetJSON_results(4) [of net ku r' decode "[]"] k by simp
    ultimately show ?thesis using that(2) by (simp add: h Let_def)
  qed
  from a b c show ?thesis by blast
qed

theorem undecodable_body_counts_as_received_witness:
  "fst (handler (\<lambda>b. None) (\<lambda>u. Get_Ok \<lparr>StatusCode = 200, Body = ''<html>''\<rparr>)
         ''user@domain.com'') =
     \<lparr>status = 200, body = \<lparr>Lnurlp = JNull, Keysend = JNull\<rparr>, pretty = True\<rparr>"
  using undecodable_body_counts_as_received [OF ToUrl_user_domain,
      of "\<lambda>u. Get_Ok \<lparr>StatusCode = 200, Body = ''<html>''\<rparr>"
         "\<lparr>StatusCode = 200, Body = ''<html>''\<rparr>" "\<lambda>b. None"
         "\<lparr>StatusCode = 200, Body = ''<html>''\<rparr>"]
  by simp

text \<open>
  The default branch: when the identifier parses and neither the 400 branch nor the
  mirrored-status branch is taken, the reply is 200 and each field holds the document
  of its fetch when \<open>GetJSON\<close> returned no error, and is empty otherwise.
\<close>

lemma default_branch_reply:
  assumes "ToUrl lnaddr = Inr (lu, ku)"
    and "fst (GetJSON decode net lu []) = (lnurlp, lnurlpResponse, lnurlpErr)"
    and "fst (GetJSON decode net ku []) = (keysend, keysendResponse, keysendErr)"
    and "\<not> (lnurlpResponse = None \<and> keysendResponse = None)"
    and "\<not> (\<exists>lr kr. lnurlpResponse = Some lr \<and> keysendResponse = Some kr
              \<and> StatusCode lr > 300 \<and> StatusCode kr > 300)"
  shows "fst (handler decode net lnaddr) =
           \<lparr>status = 200,
            body = \<lparr>Lnurlp = (if lnurlpErr = None then lnurlp else JNull),
                    Keysend = (if keysendErr = None then keysend else JNull)\<rparr>,
            pretty = True\<rparr>
       \<and> fst (handler_inline decode net lnaddr) =
           \<lparr>status = 200,
            body = \<lparr>Lnurlp = (if lnurlpErr = None then lnurlp else JNull),
                    Keysend = (if keysendErr = None then keysend else JNull)\<rparr>,
            pretty = True\<rparr>"
proof -
  have "fst (handler decode net lnaddr) =
           \<lparr>status = 200,
            body = \<lparr>Lnurlp = (if lnurlpErr = None then lnurlp else JNull),
                    Keysend = (if keysendErr = None then keysend else JNull)\<rparr>,
            pretty = True\<rparr>"
    using assms(4,5)
    by (cases lnurlpResponse; cases keysendResponse)
       (simp_all add: handler_parsed [OF assms(1,2,3)] Let_def)
  then show ?thesis by (simp add: handler_inline_reply)
qed

lemma lnurlp_only_example:
  \<open>fst (handler (\<lambda>b. if b = ''{"a":1}'' then Some (JObject [(''a'', JNumber 1)]) else None)
         (\<lambda>u. if u = ''https://domain.com/.well-known/lnurlp/user''
               then Get_Ok \<lparr>StatusCode = 200, Body = ''{"a":1}''\<rparr> else Get_Error)
         ''user@domain.com'') =
     \<lparr>status = 200, body = \<lparr>Lnurlp = JObject [(''a'', JNumber 1)], Keysend = JNull\<rparr>,
      pretty = True\<rparr>\<close>
  using default_branch_reply [OF ToUrl_user_domain,
      of \<open>\<lambda>b. if b = ''{"a":1}'' then Some (JObject [(''a'', JNumber 1)]) else None\<close>
         \<open>\<lambda>u. if u = ''https://domain.com/.well-known/lnurlp/user''
               then Get_Ok \<lparr>StatusCode = 200, Body = ''{"a":1}''\<rparr> else Get_Error\<close>
         \<open>JObject [(''a'', JNumber 1)]\<close> \<open>Some \<lparr>StatusCode = 200, Body = ''{"a":1}''\<rparr>\<close> None
         JNull None \<open>Some No_details\<close>]
  by (simp add: GetJSON_def http_Get_def)

text \<open>
  C7. The claim fails at the boundary of the failure range. With lnurlp answering 300
  and a body that decodes, and keysend unreachable, the lnurlp fetch is a failure for
  the claim and its field should stay empty; \<open>GetJSON\<close> tests
  \<^verbatim>\<open>response.StatusCode > 300\<close>, takes the response for a success, and the reply
  carries the decoded body in the lnurlp field.
\<close>

theorem failed_fetch_at_300_fills_field:
  "fst (handler (\<lambda>b. if b = ''{}'' then Some (JObject []) else None)
         (\<lambda>u. if u = ''https://domain.com/.well-known/lnurlp/user''
               then Get_Ok \<lparr>StatusCode = 300, Body = ''{}''\<rparr>
               else Get_Error)
         ''user@domain.com'') =
     \<lparr>status = 200, body = \<lparr>Lnurlp = JObject [], Keysend = JNull\<rparr>, pretty = True\<rparr>
   \<and> fst (handler_inline (\<lambda>b. if b = ''{}'' then Some (JObject []) else None)
         (\<lambda>u. if u = ''https://domain.com/.well-known/lnurlp/user''
               then Get_Ok \<lparr>StatusCode = 300, Body = ''{}''\<rparr>
               else Get_Error)
         ''user@domain.com'') =
     \<lparr>status = 200, body = \<lparr>Lnurlp = JObject [], Keysend = JNull\<rparr>, pretty = True\<rparr>"
  by (simp add: handler_inline_reply handler_def ToUrl_user_domain GetJSON_def http_Get_def)

text \<open>
  C8. For \<open>user@domain.com\<close> the two URLs are exactly those of the well-known lnurlp and
  keysend paths of \<open>domain.com\<close>. In general the local part and the domain are put
  into the two templates as they are, whatever bytes they contain: nothing is escaped
  or encoded. The handlers request exactly these URLs.
\<close>

theorem ToUrl_substitutes:
  assumes "CHR ''@'' \<notin> set local" and "CHR ''@'' \<notin> set domain"
  shows "ToUrl (local @ ''@'' @ domain) =
           Inr (''https://'' @ domain @ ''/.well-known/lnurlp/'' @ local,
                ''https://'' @ domain @ ''/.well-known/keysend/'' @ local)
       \<and> snd (handler decode net (local @ ''@'' @ domain)) =
           [''https://'' @ domain @ ''/.well-known/lnurlp/'' @ local,
            ''https://'' @ domain @ ''/.well-known/keysend/'' @ local]
       \<and> snd (handler_inline decode net (local @ ''@'' @ domain)) =
           [''https://'' @ domain @ ''/.well-known/keysend/'' @ local,
            ''https://'' @ domain @ ''/.well-known/lnurlp/'' @ local]"
proof -
  have s: "Split (local @ ''@'' @ domain) CHR ''@'' = [local, domain]"
    using Split_append [OF assms(1), of domain] Split_no_sep [OF assms(2)] by simp
  then have u: "ToUrl (local @ ''@'' @ domain) =
      Inr (''https://'' @ domain @ ''/.well-known/lnurlp/'' @ local,
           ''https://'' @ domain @ ''/.well-known/keysend/'' @ local)"
    by (simp add: ToUrl_def lnurlp_url_def keysend_url_def)
  have t: "snd (handler decode net (local @ ''@'' @ domain)) =
      [''https://'' @ domain @ ''/.well-known/lnurlp/'' @ local,
       ''https://'' @ domain @ ''/.well-known/keysend/'' @ local]"
    by (rule handler_trace [OF u])
  show ?thesis using u t by (simp add: handler_traces)
qed

theorem ToUrl_substitutes_witness:
  "ToUrl ''user@domain.com'' =
     Inr (''https://domain.com/.well-known/lnurlp/user'',
          ''https://domain.com/.well-known/keysend/user'')
   \<and> ToUrl ''a b/../c?d=e#f@x.y:8080/z'' =
     Inr (''https://x.y:8080/z/.well-known/lnurlp/a b/../c?d=e#f'',
          ''https://x.y:8080/z/.well-known/keysend/a b/../c?d=e#f'')"
  using ToUrl_substitutes [of "''user''" "''domain.com''" "\<lambda>b. None" "\<lambda>u. Get_Error"]
    ToUrl_substitutes [of "''a b/../c?d=e#f''" "''x.y:8080/z''" "\<lambda>b. None" "\<lambda>u. Get_Error"]
  by simp

text \<open>
  C9. The two fields are filled independently. Take two networks and one identifier.
  If the networks give the same outcome for the lnurlp URL of the identifier, the
  replies carry the same lnurlp field, whatever the networks give for the keysend
  URL; and the same holds with the two roles exchanged.
\<close>

theorem fields_filled_independently:
  "((\<forall>lu ku. ToUrl lnaddr = Inr (lu, ku) \<longrightarrow> net1 lu = net2 lu) \<longrightarrow>
      Lnurlp (body (fst (handler decode net1 lnaddr))) =
      Lnurlp (body (fst (handler decode net2 lnaddr)))
    \<and> Lnurlp (body (fst (handler_inline decode net1 lnaddr))) =
      Lnurlp (body (fst (handler_inline decode net2 lnaddr))))
   \<and> ((\<forall>lu ku. ToUrl lnaddr = Inr (lu, ku) \<longrightarrow> net1 ku = net2 ku) \<longrightarrow>
      Keysend (body (fst (handler decode net1 lnaddr))) =
      Keysend (body (fst (handler decode net2 lnaddr)))
    \<and> Keysend (body (fst (handler_inline decode net1 lnaddr))) =
      Keysend (body (fst (handler_inline decode net2 lnaddr))))"
proof (cases "ToUrl lnaddr")
  case (Inl e)
  then have "handler decode net1 lnaddr = handler decode net2 lnaddr"
    by (simp add: handler_def)
  then show ?thesis by (simp add: handler_inline_reply)
next
  case (Inr p)
  then obtain lu ku where u: "ToUrl lnaddr = Inr (lu, ku)" by (cases p) simp
  have "Lnurlp (body (fst (handler decode net1 lnaddr))) =
        Lnurlp (body (fst (handler decode net2 lnaddr)))" if "net1 lu = net2 lu"
    using GetJSON_same_outcome [of net1 lu net2 decode "[]"] that
    by (simp add: handler_body [OF u])
  moreover have "Keysend (body (fst (handler decode net1 lnaddr))) =
        Keysend (body (fst (handler decode net2 lnaddr)))" if "net1 ku = net2 ku"
    using GetJSON_same_outcome [of net1 ku net2 decode "[]"] that
    by (simp add: handler_body [OF u])
  ultimately show ?thesis using u by (simp add: handler_inline_reply)
qed

theorem fields_filled_independently_witness:
  "Lnurlp (body (fst (handler (\<lambda>b. if b = ''true'' then Some (JBool True) else None)
       (\<lambda>u. if u = ''https://domain.com/.well-known/lnurlp/user''
             then Get_Ok \<lparr>StatusCode = 200, Body = ''true''\<rparr> else Get_Error)
       ''user@domain.com''))) =
   Lnurlp (body (fst (handler (\<lambda>b. if b = ''true'' then Some (JBool True) else None)
       (\<lambda>u. Get_Ok \<lparr>StatusCode = 200, Body = ''true''\<rparr>)
       ''user@domain.com'')))
   \<and> Keysend (body (fst (handler (\<lambda>b. if b = ''true'' then Some (JBool True) else None)
       (\<lambda>u. if u = ''https://domain.com/.well-known/keysend/user''
             then Get_Ok \<lparr>StatusCode = 200, Body = ''true''\<rparr> else Get_Error)
       ''user@domain.com''))) =
   Keysend (body (fst (handler (\<lambda>b. if b = ''true'' then Some (JBool True) else None)
       (\<lambda>u. Get_Ok \<lparr>StatusCode = 200, Body = ''true''\<rparr>)
       ''user@domain.com'')))"
  using fields_filled_independently [of "''user@domain.com''"
      "\<lambda>u. if u = ''https://domain.com/.well-known/lnurlp/user''
             then Get_Ok \<lparr>StatusCode = 200, Body = ''true''\<rparr> else Get_Error"
      "\<lambda>u. Get_Ok \<lparr>StatusCode = 200, Body = ''true''\<rparr>"
      "\<lambda>b. if b = ''true'' then Some (JBool True) else None"]
    fields_filled_independently [of "''user@domain.com''"
      "\<lambda>u. if u = ''https://domain.com/.well-known/keysend/user''
             then Get_Ok \<lparr>StatusCode = 200, Body = ''true''\<rparr> else Get_Error"
      "\<lambda>u. Get_Ok \<lparr>StatusCode = 200, Body = ''true''\<rparr>"
      "\<lambda>b. if b = ''true'' then Some (JBool True) else None"]
  by (simp add: ToUrl_user_domain)

text \<open>
  C10. The two handlers are equivalent for the client: for every identifier, decoder
  and network they send the same status, the same body, written the same way. They
  differ only in the order of their two requests.
\<close>

theorem handlers_equivalent:
  "status (fst (handler_inline decode net lnaddr)) = status (fst (handler decode net lnaddr))
   \<and> body (fst (handler_inline decode net lnaddr)) = body (fst (handler decode net lnaddr))
   \<and> pretty (fst (handler_inline decode net lnaddr)) = pretty (fst (handler decode net lnaddr))
   \<and> snd (handler_inline decode net lnaddr) = rev (snd (handler decode net lnaddr))"
  by (simp add: handler_inline_reply handler_traces)

end
